theory Spec2Isabelle
  imports Complex_Main "HOL-Library.Multiset" "HOL-Library.Product_Lexorder"
begin

section \<open>Book Wrap 2025: the statistics and persona pipeline of \<^verbatim>\<open>src/App.tsx\<close>\<close>

text \<open>
  The development embeds the computational core of the component \<^verbatim>\<open>App\<close>: the row
  normaliser and the two year filters inside \<^verbatim>\<open>processCSV\<close>, the statistics computed
  from \<^verbatim>\<open>readData\<close>, and the persona rule chain \<^verbatim>\<open>getAura\<close>.

  Conventions of the embedding.
  \<^item> A JavaScript number is an exact \<^typ>\<open>int\<close> where the source keeps it integral
    (\<^verbatim>\<open>parseInt\<close>, \<^verbatim>\<open>Math.round\<close>, page sums) and an exact \<^typ>\<open>rat\<close> where it may be
    fractional (ratings and their mean). The rounding of IEEE doubles, the infinities and
    integers beyond \<open>2^53\<close> are not represented; \<open>NaN\<close> is \<^term>\<open>None\<close> wherever a
    builtin can produce it.
  \<^item> A JavaScript string is a \<^typ>\<open>string\<close> of ASCII characters; \<^verbatim>\<open>undefined\<close> is
    \<^term>\<open>None\<close> of a \<^typ>\<open>string option\<close>.
  \<^item> A thrown \<^verbatim>\<open>TypeError\<close> is the left summand of a result type.
\<close>

subsection \<open>Data\<close>

text \<open>
  A \<^verbatim>\<open>Date\<close> object, seen through the two getters the program calls. An invalid date
  (\<^verbatim>\<open>new Date("garbage")\<close>) is an object too, and so truthy; its getters return \<open>NaN\<close>.
  For a valid date the model keeps the local calendar year and month.
\<close>

datatype month = Jan | Feb | Mar | Apr | May | Jun | Jul | Aug | Sep | Oct | Nov | Dec

datatype Date = InvalidDate | LocalDate int month

fun monthIndex :: "month \<Rightarrow> nat" where
  "monthIndex Jan = 0"
| "monthIndex Feb = 1"
| "monthIndex Mar = 2"
| "monthIndex Apr = 3"
| "monthIndex May = 4"
| "monthIndex Jun = 5"
| "monthIndex Jul = 6"
| "monthIndex Aug = 7"
| "monthIndex Sep = 8"
| "monthIndex Oct = 9"
| "monthIndex Nov = 10"
| "monthIndex Dec = 11"

fun getFullYear :: "Date \<Rightarrow> int option" where
  "getFullYear InvalidDate = None"
| "getFullYear (LocalDate y m) = Some y"

fun getMonth :: "Date \<Rightarrow> nat option" where
  "getMonth InvalidDate = None"
| "getMonth (LocalDate y m) = Some (monthIndex m)"

text \<open>
  \<^verbatim>\<open>interface BookData\<close>. The rows come from the CSV decoder as \<^verbatim>\<open>any\<close>, so a column
  the file lacks leaves \<^verbatim>\<open>title\<close>, \<^verbatim>\<open>author\<close> or \<^verbatim>\<open>shelf\<close> undefined at run time.
\<close>

record BookData =
  title :: "string option"
  author :: "string option"
  pages :: int
  rating :: rat
  dateRead :: "Date option"
  dateAdded :: "Date option"
  shelf :: "string option"

text \<open>
  \<^verbatim>\<open>interface Aura\<close>, without the two presentational fields \<^verbatim>\<open>desc\<close> (a paragraph of
  prose) and \<^verbatim>\<open>icon\<close> (a React node).
\<close>

record Aura =
  name :: string
  color1 :: string
  color2 :: string
  tags :: "string list"
  roast :: string

subsection \<open>The persona rule chain\<close>

definition cozyCollector :: Aura where
  "cozyCollector =
     \<lparr>name = ''COZY COLLECTOR'', color1 = ''#A3E635'', color2 = ''#FBBF24'',
      tags = [''#TsundokuLife'', ''#BeliDulu'', ''#NantiAjaBacanya''],
      roast = ''DENDA PENIMBUNAN (Buku numpuk tapi cuma jadi pajangan)''\<rparr>"

definition deepDiver :: Aura where
  "deepDiver =
     \<lparr>name = ''DEEP DIVER'', color1 = ''#1E3A8A'', color2 = ''#000000'',
      tags = [''#HilangDariPeradaban'', ''#CommitmentIssuesSolved'', ''#NoSkimmingZone''],
      roast = ''BIAYA SEWA GUA (Kelamaan menghilang dari realita)''\<rparr>"

definition speedySkeptic :: Aura where
  "speedySkeptic =
     \<lparr>name = ''SPEEDY SKEPTIC'', color1 = ''#3B82F6'', color2 = ''#EF4444'',
      tags = [''#SpeedRead'', ''#PlotArmorDetective'', ''#KritikusHandal''],
      roast = ''PENALTI SPEEDRUN (Baca cepat tapi tetap kritis)''\<rparr>"

definition thoroughEnjoyer :: Aura where
  "thoroughEnjoyer =
     \<lparr>name = ''THOROUGH ENJOYER'', color1 = ''#7E22CE'', color2 = ''#EC4899'',
      tags = [''#DepthOverSpeed'', ''#SavorEveryPage'', ''#InTooDeep''],
      roast = ''DENDA GOODVIBES (Baca 350+ halaman tapi rating tetap 4+, mana bisa dipercaya?)''\<rparr>"

definition softEnthusiast :: Aura where
  "softEnthusiast =
     \<lparr>name = ''SOFT ENTHUSIAST'', color1 = ''#FACC15'', color2 = ''#FB923C'',
      tags = [''#SoftHeartReader'', ''#ComfortRead'', ''#EasilyAttached''],
      roast = ''BIAYA KEPUASAN (Gampang jatuh cinta sama buku)''\<rparr>"

definition balancedRealist :: Aura where
  "balancedRealist =
     \<lparr>name = ''BALANCED REALIST'', color1 = ''#60A5FA'', color2 = ''#94A3B8'',
      tags = [''#FairReader'', ''#StayObjective'', ''#NoOverrate''],
      roast = ''BIAYA ADMIN (Hidup terlalu straight, tapi ya aman)''\<rparr>"

text \<open>
  \<^verbatim>\<open>getAura\<close> reads four values of the enclosing component: \<^verbatim>\<open>tbrCount\<close>,
  \<^verbatim>\<open>totalBooks\<close>, \<^verbatim>\<open>avgPages\<close> and \<^verbatim>\<open>avgRatingVal\<close>. They are its arguments here.
\<close>

definition getAura :: "nat \<Rightarrow> nat \<Rightarrow> int \<Rightarrow> rat \<Rightarrow> Aura" where
  "getAura tbrCount totalBooks avgPages avgRatingVal =
     (if tbrCount > totalBooks * 2 \<and> tbrCount > 5 then cozyCollector
      else if totalBooks < 15 \<and> avgPages > 450 then deepDiver
      else if totalBooks > 20 \<and> avgPages < 300 \<and> avgRatingVal < 38 / 10 then speedySkeptic
      else if avgRatingVal \<ge> 4 \<and> avgPages > 350 then thoroughEnjoyer
      else if avgRatingVal \<ge> 42 / 10 then softEnthusiast
      else balancedRealist)"

text \<open>
  The rule table as the specification words it: an ordered list of predicate and
  descriptor pairs over the statistics vector, the first predicate that holds wins, and a
  fallback descriptor closes the list.
\<close>

type_synonym statsVector = "nat \<times> nat \<times> int \<times> rat"

definition branch1 :: "statsVector \<Rightarrow> bool" where
  "branch1 = (\<lambda>(tbr, nb, ap, ar). tbr > 2 * nb \<and> tbr > 5)"

definition branch2 :: "statsVector \<Rightarrow> bool" where
  "branch2 = (\<lambda>(tbr, nb, ap, ar). nb < 15 \<and> ap > 450)"

definition branch3 :: "statsVector \<Rightarrow> bool" where
  "branch3 = (\<lambda>(tbr, nb, ap, ar). nb > 20 \<and> ap < 300 \<and> ar < 38 / 10)"

definition branch4 :: "statsVector \<Rightarrow> bool" where
  "branch4 = (\<lambda>(tbr, nb, ap, ar). ar \<ge> 4 \<and> ap > 350)"

definition branch5 :: "statsVector \<Rightarrow> bool" where
  "branch5 = (\<lambda>(tbr, nb, ap, ar). ar \<ge> 42 / 10)"

definition personaTable :: "((statsVector \<Rightarrow> bool) \<times> Aura) list" where
  "personaTable =
     [(branch1, cozyCollector), (branch2, deepDiver), (branch3, speedySkeptic),
      (branch4, thoroughEnjoyer), (branch5, softEnthusiast)]"

fun firstMatch :: "(('a \<Rightarrow> bool) \<times> 'b) list \<Rightarrow> 'b \<Rightarrow> 'a \<Rightarrow> 'b" where
  "firstMatch [] fallback v = fallback"
| "firstMatch ((p, d) # rest) fallback v = (if p v then d else firstMatch rest fallback v)"

definition classifySpec :: "statsVector \<Rightarrow> Aura" where
  "classifySpec v = firstMatch personaTable balancedRealist v"

subsection \<open>Builtins of the language\<close>

text \<open>
  \<^verbatim>\<open>ToString\<close> on a cell of a row: the text itself, or the word \<^verbatim>\<open>undefined\<close> for a
  column the row lacks.
\<close>

definition toStr :: "string option \<Rightarrow> string" where
  "toStr v = (case v of None \<Rightarrow> ''undefined'' | Some s \<Rightarrow> s)"

text \<open>
  The white space that \<^verbatim>\<open>parseInt\<close> skips and \<^verbatim>\<open>trim\<close> removes: tab, line feed,
  vertical tab, form feed, carriage return and space (the ASCII part of the language's
  \<^verbatim>\<open>WhiteSpace\<close> and \<^verbatim>\<open>LineTerminator\<close>).
\<close>

definition isWhiteSpace :: "char \<Rightarrow> bool" where
  "isWhiteSpace c = (c \<in> set [CHR 0x09, CHR 0x0A, CHR 0x0B, CHR 0x0C, CHR 0x0D, CHR 0x20])"

definition trim :: "string \<Rightarrow> string" where
  "trim s = rev (dropWhile isWhiteSpace (rev (dropWhile isWhiteSpace s)))"

text \<open>The value of a character as a digit of radix \<open>R\<close>, if it is one.\<close>

definition digitValue :: "nat \<Rightarrow> char \<Rightarrow> nat option" where
  "digitValue R c =
     (let n = (of_char c :: nat);
          v = (if 48 \<le> n \<and> n \<le> 57 then Some (n - 48)
               else if 97 \<le> n \<and> n \<le> 122 then Some (n - 87)
               else if 65 \<le> n \<and> n \<le> 90 then Some (n - 55)
               else None)
      in case v of None \<Rightarrow> None | Some d \<Rightarrow> if d < R then Some d else None)"

definition mathInt :: "nat \<Rightarrow> string \<Rightarrow> int" where
  "mathInt R Z =
     foldl (\<lambda>acc c. acc * int R + int (case digitValue R c of None \<Rightarrow> 0 | Some d \<Rightarrow> d)) 0 Z"

text \<open>
  \<^verbatim>\<open>parseInt(string)\<close> without a radix, after the language definition: skip leading
  white space, read a sign, switch to radix 16 after \<^verbatim>\<open>0x\<close> or \<^verbatim>\<open>0X\<close>, take the
  longest prefix of digits; no digit gives \<open>NaN\<close>.
\<close>

definition parseInt :: "string \<Rightarrow> int option" where
  "parseInt inputString =
     (let S = dropWhile isWhiteSpace inputString;
          sign = (if take 1 S = ''-'' then - 1 else 1 :: int);
          S1 = (if take 1 S = ''+'' \<or> take 1 S = ''-'' then drop 1 S else S);
          hex = (take 2 S1 = ''0x'' \<or> take 2 S1 = ''0X'');
          R = (if hex then 16 else 10);
          S2 = (if hex then drop 2 S1 else S1);
          Z = takeWhile (\<lambda>c. digitValue R c \<noteq> None) S2
      in if Z = [] then None else Some (sign * mathInt R Z))"

text \<open>\<^verbatim>\<open>x || 0\<close> on a number: \<open>NaN\<close> and \<open>0\<close> are falsy, every other number is kept.\<close>

definition orZero :: "'a::zero option \<Rightarrow> 'a" where
  "orZero v = (case v of None \<Rightarrow> 0 | Some n \<Rightarrow> n)"

subsection \<open>\<^verbatim>\<open>processCSV\<close>: rows to books\<close>

text \<open>
  A row of the decoder (\<^verbatim>\<open>header: true\<close>) maps a column name to the text of its cell.
\<close>

type_synonym RawRow = "string \<Rightarrow> string option"

datatype source = goodreads | storygraph

text \<open>
  \<^verbatim>\<open>str ? new Date(str) : null\<close>: the empty text and \<^verbatim>\<open>undefined\<close> are falsy. The
  constructor \<^verbatim>\<open>new Date(str)\<close> and \<^verbatim>\<open>parseFloat\<close> are builtins whose results depend on
  the engine and its time zone; they are parameters of the embedding (\<open>newDate\<close>,
  \<open>parseFloat\<close>).
\<close>

definition dateOrNull :: "(string \<Rightarrow> Date) \<Rightarrow> string option \<Rightarrow> Date option" where
  "dateOrNull newDate v =
     (case v of None \<Rightarrow> None | Some str \<Rightarrow> if str = [] then None else Some (newDate str))"

text \<open>The callback of \<^verbatim>\<open>rows.map\<close> that builds \<^verbatim>\<open>allBooks\<close>.\<close>

definition toBook ::
  "(string \<Rightarrow> Date) \<Rightarrow> (string \<Rightarrow> rat option) \<Rightarrow> source \<Rightarrow> RawRow \<Rightarrow> BookData" where
  "toBook newDate parseFloat src row =
     (if src = goodreads then
        (let dateReadStr = row ''Date Read'';
             dateAddedStr = row ''Date Added''
         in \<lparr>title = row ''Title'',
             author = row ''Author'',
             pages = orZero (parseInt (toStr (row ''Number of Pages''))),
             rating = of_int (orZero (parseInt (toStr (row ''My Rating'')))),
             dateRead = dateOrNull newDate dateReadStr,
             dateAdded = dateOrNull newDate dateAddedStr,
             shelf = row ''Exclusive Shelf''\<rparr>)
      else
        \<lparr>title = row ''Title'',
         author = row ''Authors'',
         pages = orZero (parseInt (toStr (row ''Pages''))),
         rating = orZero (parseFloat (toStr (row ''Star Rating''))),
         dateRead = dateOrNull newDate (row ''Read Date''),
         dateAdded = None,
         shelf = (if row ''Read Status'' = Some ''read'' then Some ''read'' else Some ''to-read'')\<rparr>)"

definition allBooks ::
  "(string \<Rightarrow> Date) \<Rightarrow> (string \<Rightarrow> rat option) \<Rightarrow> source \<Rightarrow> RawRow list \<Rightarrow> BookData list" where
  "allBooks newDate parseFloat src rows = map (toBook newDate parseFloat src) rows"

text \<open>\<^verbatim>\<open>d && d.getFullYear() === 2025\<close> on a field that is a date or \<^verbatim>\<open>null\<close>.\<close>

definition inYear2025 :: "Date option \<Rightarrow> bool" where
  "inYear2025 v = (case v of None \<Rightarrow> False | Some d \<Rightarrow> getFullYear d = Some 2025)"

text \<open>The filter callback of \<^verbatim>\<open>readIn2025\<close>, with its three early returns.\<close>

definition keepRead :: "BookData \<Rightarrow> bool" where
  "keepRead b =
     (if shelf b \<noteq> Some ''read'' then False
      else if inYear2025 (dateRead b) then True
      else if dateRead b = None \<and> inYear2025 (dateAdded b) then True
      else False)"

text \<open>The map callback of \<^verbatim>\<open>readIn2025\<close>: a missing read date is filled with the add date.\<close>

definition backfill :: "BookData \<Rightarrow> BookData" where
  "backfill b =
     (if dateRead b = None \<and> dateAdded b \<noteq> None then b\<lparr>dateRead := dateAdded b\<rparr> else b)"

definition readIn2025 :: "BookData list \<Rightarrow> BookData list" where
  "readIn2025 books = map backfill (filter keepRead books)"

definition addedToTbr2025 :: "BookData list \<Rightarrow> BookData list" where
  "addedToTbr2025 books =
     filter (\<lambda>b. shelf b = Some ''to-read'' \<and> inYear2025 (dateAdded b)) books"

text \<open>
  The state that the completion callback of \<^verbatim>\<open>processCSV\<close> sets:
  \<^verbatim>\<open>setReadData(readIn2025)\<close> and \<^verbatim>\<open>setTbrCount(addedToTbr2025.length)\<close>.
\<close>

record AppState =
  readData :: "BookData list"
  tbrCount :: nat

definition processCSV ::
  "(string \<Rightarrow> Date) \<Rightarrow> (string \<Rightarrow> rat option) \<Rightarrow> source \<Rightarrow> RawRow list \<Rightarrow> AppState" where
  "processCSV newDate parseFloat src rows =
     (let books = allBooks newDate parseFloat src rows
      in \<lparr>readData = readIn2025 books, tbrCount = length (addedToTbr2025 books)\<rparr>)"

subsection \<open>Objects used as dictionaries\<close>

text \<open>
  An object literal \<^verbatim>\<open>{}\<close> that the program fills by assignment: its own properties, in
  the order of their creation. Reading a key that is absent gives \<^verbatim>\<open>undefined\<close>;
  assigning to a present key keeps its place. Property names inherited from
  \<^verbatim>\<open>Object.prototype\<close> (such as \<^verbatim>\<open>constructor\<close>) are outside the embedding.
\<close>

type_synonym 'v jsobj = "(string \<times> 'v) list"

definition getProp :: "'v jsobj \<Rightarrow> string \<Rightarrow> 'v option" where
  "getProp obj k = map_of obj k"

fun setProp :: "'v jsobj \<Rightarrow> string \<Rightarrow> 'v \<Rightarrow> 'v jsobj" where
  "setProp [] k v = [(k, v)]"
| "setProp ((k', v') # rest) k v =
     (if k' = k then (k, v) # rest else (k', v') # setProp rest k v)"

text \<open>The statement \<^verbatim>\<open>obj[k] = (obj[k] || 0) + 1\<close>, which both tallies use.\<close>

definition bump :: "nat jsobj \<Rightarrow> string \<Rightarrow> nat jsobj" where
  "bump obj k = setProp obj k (orZero (getProp obj k) + 1)"

text \<open>
  A key is an array index when it is the canonical decimal numeral of an integer below
  \<open>2^32 - 1\<close>. \<^verbatim>\<open>Object.entries\<close> lists the array indices first, in ascending numeric
  order, and then the other keys in the order of their creation.
\<close>

definition isArrayIndex :: "string \<Rightarrow> bool" where
  "isArrayIndex k =
     (k \<noteq> [] \<and> list_all (\<lambda>c. digitValue 10 c \<noteq> None) k
      \<and> (k = ''0'' \<or> take 1 k \<noteq> ''0'') \<and> mathInt 10 k < 2 ^ 32 - 1)"

definition Object_entries :: "'v jsobj \<Rightarrow> (string \<times> 'v) list" where
  "Object_entries obj =
     sort_key (\<lambda>e. mathInt 10 (fst e)) (filter (\<lambda>e. isArrayIndex (fst e)) obj)
     @ filter (\<lambda>e. \<not> isArrayIndex (fst e)) obj"

text \<open>
  \<^verbatim>\<open>Array.prototype.sort\<close> with a comparison function. The language requires the sort
  to be stable; for a comparison function that is a consistent ordering the result is
  then determined, and insertion from the right computes it: an element goes in front of
  the first element it does not have to follow.
\<close>

fun insertBy :: "('a \<Rightarrow> 'a \<Rightarrow> 'n::{linorder,zero}) \<Rightarrow> 'a \<Rightarrow> 'a list \<Rightarrow> 'a list" where
  "insertBy cmp x [] = [x]"
| "insertBy cmp x (y # ys) = (if cmp x y \<le> 0 then x # y # ys else y # insertBy cmp x ys)"

definition sortBy :: "('a \<Rightarrow> 'a \<Rightarrow> 'n::{linorder,zero}) \<Rightarrow> 'a list \<Rightarrow> 'a list" where
  "sortBy cmp xs = foldr (insertBy cmp) xs []"

subsection \<open>Numbers as text\<close>

definition digitChar :: "nat \<Rightarrow> char" where
  "digitChar d = ''0123456789'' ! d"

fun showNat :: "nat \<Rightarrow> string" where
  "showNat n = (if n < 10 then [digitChar n] else showNat (n div 10) @ [digitChar (n mod 10)])"

declare showNat.simps [simp del]

definition showInt :: "int \<Rightarrow> string" where
  "showInt i = (if i < 0 then ''-'' @ showNat (nat (- i)) else showNat (nat i))"

text \<open>A number used as a property key: \<^verbatim>\<open>ToString\<close> of a month index, or of \<open>NaN\<close>.\<close>

definition numberKey :: "nat option \<Rightarrow> string" where
  "numberKey v = (case v of None \<Rightarrow> ''NaN'' | Some n \<Rightarrow> showNat n)"

text \<open>
  \<^verbatim>\<open>Math.round\<close> rounds to the nearest integer, a half upwards.
  \<^verbatim>\<open>x.toFixed(1)\<close> prints the nearest multiple of one tenth, the larger one at a tie,
  after the sign of \<open>x\<close>; the exponent notation that the language uses from \<open>10^21\<close> on
  is outside the embedding.
\<close>

definition Math_round :: "rat \<Rightarrow> int" where
  "Math_round x = \<lfloor>x + 1 / 2\<rfloor>"

definition toFixed1 :: "rat \<Rightarrow> string" where
  "toFixed1 x =
     (let s = (if x < 0 then ''-'' else []);
          n = nat \<lfloor>\<bar>x\<bar> * 10 + 1 / 2\<rfloor>
      in s @ showNat (n div 10) @ ''.'' @ showNat (n mod 10))"

subsection \<open>Statistics over \<^verbatim>\<open>readData\<close>\<close>

definition totalBooks :: "BookData list \<Rightarrow> nat" where
  "totalBooks rd = length rd"

definition totalPages :: "BookData list \<Rightarrow> int" where
  "totalPages rd = foldl (\<lambda>acc curr. acc + pages curr) 0 rd"

definition avgPages :: "BookData list \<Rightarrow> int" where
  "avgPages rd =
     (if totalBooks rd > 0 then Math_round (of_int (totalPages rd) / of_nat (totalBooks rd))
      else 0)"

definition avgRatingVal :: "BookData list \<Rightarrow> rat" where
  "avgRatingVal rd =
     (if totalBooks rd > 0
      then foldl (\<lambda>acc curr. acc + rating curr) 0 rd / of_nat (totalBooks rd)
      else 0)"

definition avgRating :: "BookData list \<Rightarrow> string" where
  "avgRating rd = toFixed1 (avgRatingVal rd)"

text \<open>
  \<^verbatim>\<open>thickestBook\<close> reduces \<^verbatim>\<open>readData\<close> from the object
  \<^verbatim>\<open>{ title: '-', pages: 0, author: '-' }\<close>. The accumulator is that object
  (\<open>Placeholder\<close>) or a book of the list.
\<close>

datatype Thickest = Placeholder | Book BookData

fun thickTitle :: "Thickest \<Rightarrow> string option" where
  "thickTitle Placeholder = Some ''-''"
| "thickTitle (Book b) = title b"

fun thickAuthor :: "Thickest \<Rightarrow> string option" where
  "thickAuthor Placeholder = Some ''-''"
| "thickAuthor (Book b) = author b"

fun thickPages :: "Thickest \<Rightarrow> int" where
  "thickPages Placeholder = 0"
| "thickPages (Book b) = pages b"

definition thickestBook :: "BookData list \<Rightarrow> Thickest" where
  "thickestBook rd =
     foldl (\<lambda>prev current. if thickPages prev > pages current then prev else Book current)
       Placeholder rd"

definition topBooks :: "BookData list \<Rightarrow> BookData list" where
  "topBooks rd =
     take 5
       (sortBy (\<lambda>a b. if rating b \<noteq> rating a then rating b - rating a
                      else of_int (pages b - pages a))
          (filter (\<lambda>b. rating b > 0) rd))"

text \<open>
  The tally of authors. \<^verbatim>\<open>book.author.split('(')[0].trim()\<close> keeps the text in front of
  the first opening parenthesis, trimmed; on an undefined author the call of
  \<^verbatim>\<open>split\<close> throws.
\<close>

datatype error = TypeError

definition cleanAuthor :: "string \<Rightarrow> string" where
  "cleanAuthor a = trim (takeWhile (\<lambda>c. c \<noteq> CHR ''('') a)"

fun authorCountsFrom :: "nat jsobj \<Rightarrow> BookData list \<Rightarrow> error + nat jsobj" where
  "authorCountsFrom obj [] = Inr obj"
| "authorCountsFrom obj (book # rest) =
     (case author book of
        None \<Rightarrow> Inl TypeError
      | Some a \<Rightarrow> authorCountsFrom (bump obj (cleanAuthor a)) rest)"

definition authorCounts :: "BookData list \<Rightarrow> error + nat jsobj" where
  "authorCounts rd = authorCountsFrom [] rd"

definition topAuthors :: "BookData list \<Rightarrow> error + (string \<times> nat) list" where
  "topAuthors rd =
     (case authorCounts rd of
        Inl e \<Rightarrow> Inl e
      | Inr obj \<Rightarrow>
          Inr (take 5 (sortBy (\<lambda>a b. int (snd b) - int (snd a)) (Object_entries obj))))"

text \<open>\<^verbatim>\<open>getMostActiveMonth\<close>: the tally of months, then the scan for the largest count.\<close>

definition monthCounts :: "BookData list \<Rightarrow> nat jsobj" where
  "monthCounts rd =
     foldl (\<lambda>obj book. case dateRead book of
                          None \<Rightarrow> obj
                        | Some d \<Rightarrow> bump obj (numberKey (getMonth d)))
       [] rd"

definition scanMax :: "(string \<times> nat) list \<Rightarrow> int option \<times> int" where
  "scanMax entries =
     foldl (\<lambda>(maxMonth, maxCount) (m, c).
              if int c > maxCount then (parseInt m, int c) else (maxMonth, maxCount))
       (Some (- 1), - 1) entries"

definition monthNames :: "string list" where
  "monthNames = [''JANUARI'', ''FEBRUARI'', ''MARET'', ''APRIL'', ''MEI'', ''JUNI'', ''JULI'',
     ''AGUSTUS'', ''SEPTEMBER'', ''OKTOBER'', ''NOVEMBER'', ''DESEMBER'']"

text \<open>
  \<^verbatim>\<open>monthNames[maxMonth]\<close> inside the template literal: an index that is \<open>NaN\<close> or out
  of range reads \<^verbatim>\<open>undefined\<close>, which the template prints as that word.
\<close>

definition monthNameAt :: "int option \<Rightarrow> string" where
  "monthNameAt i =
     (case i of
        None \<Rightarrow> ''undefined''
      | Some n \<Rightarrow> if 0 \<le> n \<and> nat n < length monthNames then monthNames ! nat n
                  else ''undefined'')"

definition getMostActiveMonth :: "BookData list \<Rightarrow> string" where
  "getMostActiveMonth rd =
     (if length rd = 0 then ''-''
      else
        (let (maxMonth, maxCount) = scanMax (Object_entries (monthCounts rd))
         in if maxMonth = Some (- 1) then ''-''
            else monthNameAt maxMonth @ '' ('' @ showInt maxCount @ '' BUKU)''))"

definition peakMonth :: "BookData list \<Rightarrow> string" where
  "peakMonth rd = getMostActiveMonth rd"

text \<open>\<^verbatim>\<open>const aura = getAura()\<close>, from the state and the statistics of its books.\<close>

definition aura :: "AppState \<Rightarrow> Aura" where
  "aura st =
     getAura (tbrCount st) (totalBooks (readData st)) (avgPages (readData st))
       (avgRatingVal (readData st))"

subsection \<open>Notions used to state the properties\<close>

text \<open>The distinct elements of a list, in the order of their first appearance.\<close>

fun firstSeen :: "'a list \<Rightarrow> 'a list" where
  "firstSeen [] = []"
| "firstSeen (x # xs) = x # removeAll x (firstSeen xs)"


definition monthKey :: "month \<Rightarrow> string" where
  "monthKey m = numberKey (Some (monthIndex m))"

definition monthKeys :: "BookData list \<Rightarrow> string list" where
  "monthKeys rd =
     concat (map (\<lambda>book. case dateRead book of
                           None \<Rightarrow> []
                         | Some d \<Rightarrow> [numberKey (getMonth d)]) rd)"

text \<open>The number of books whose read date lies in a given calendar month.\<close>

definition readInMonth :: "month \<Rightarrow> BookData \<Rightarrow> bool" where
  "readInMonth m book =
     (case dateRead book of
        None \<Rightarrow> False
      | Some InvalidDate \<Rightarrow> False
      | Some (LocalDate y m') \<Rightarrow> m' = m)"

definition monthCount :: "month \<Rightarrow> BookData list \<Rightarrow> nat" where
  "monthCount m rd = length (filter (readInMonth m) rd)"


section \<open>Theorems\<close>

subsection \<open>Persona classifier\<close>

lemma getAura_firstMatch:
  "getAura tbr nb ap ar = classifySpec (tbr, nb, ap, ar)"
  by (simp add: getAura_def classifySpec_def personaTable_def branch1_def branch2_def
      branch3_def branch4_def branch5_def mult.commute)

text \<open>
  C2, as stated, fails: a statistics vector can satisfy the predicates of branch 4 and
  branch 5 and that of an earlier branch as well, and then the earlier branch wins. With
  5 books of 500 pages on average and a mean rating of 4.5 the classifier returns
  DEEP DIVER (branch 2), not THOROUGH ENJOYER.
\<close>

theorem getAura_branch4_over_5_counterexample:
  "branch4 (0, 5, 500, 45 / 10) \<and> branch5 (0, 5, 500, 45 / 10) \<and>
   name (getAura 0 5 500 (45 / 10)) = ''DEEP DIVER'' \<and>
   name (getAura 0 5 500 (45 / 10)) \<noteq> ''THOROUGH ENJOYER''"
  by (simp add: getAura_def branch4_def branch5_def deepDiver_def)

text \<open>
  C2, amended: the classifier returns the descriptor of the first predicate of the
  ordered table that holds, and the fallback descriptor BALANCED REALIST when none holds;
  for every statistics vector that satisfies the predicates of branch 4 and branch 5 and
  neither that of branch 1 nor that of branch 2, it returns THOROUGH ENJOYER, the
  descriptor of branch 4.
\<close>

theorem getAura_ordered_first_match:
  "getAura tbr nb ap ar = firstMatch personaTable balancedRealist (tbr, nb, ap, ar)
   \<and> (branch4 (tbr, nb, ap, ar) \<and> branch5 (tbr, nb, ap, ar)
        \<and> \<not> branch1 (tbr, nb, ap, ar) \<and> \<not> branch2 (tbr, nb, ap, ar)
      \<longrightarrow> getAura tbr nb ap ar = thoroughEnjoyer
          \<and> name (getAura tbr nb ap ar) = ''THOROUGH ENJOYER'')
   \<and> (\<not> branch1 (tbr, nb, ap, ar) \<and> \<not> branch2 (tbr, nb, ap, ar)
        \<and> \<not> branch3 (tbr, nb, ap, ar) \<and> \<not> branch4 (tbr, nb, ap, ar)
        \<and> \<not> branch5 (tbr, nb, ap, ar)
      \<longrightarrow> getAura tbr nb ap ar = balancedRealist
          \<and> name (getAura tbr nb ap ar) = ''BALANCED REALIST'')"
proof -
  have eq: "getAura tbr nb ap ar = classifySpec (tbr, nb, ap, ar)"
    by (rule getAura_firstMatch)
  have tbl: "classifySpec (tbr, nb, ap, ar)
      = firstMatch personaTable balancedRealist (tbr, nb, ap, ar)"
    by (simp add: classifySpec_def)
  have b4: "branch4 (tbr, nb, ap, ar) \<and> branch5 (tbr, nb, ap, ar)
        \<and> \<not> branch1 (tbr, nb, ap, ar) \<and> \<not> branch2 (tbr, nb, ap, ar)
      \<longrightarrow> classifySpec (tbr, nb, ap, ar) = thoroughEnjoyer"
    by (auto simp add: classifySpec_def personaTable_def branch3_def branch4_def)
  have fb: "\<not> branch1 (tbr, nb, ap, ar) \<and> \<not> branch2 (tbr, nb, ap, ar)
        \<and> \<not> branch3 (tbr, nb, ap, ar) \<and> \<not> branch4 (tbr, nb, ap, ar)
        \<and> \<not> branch5 (tbr, nb, ap, ar)
      \<longrightarrow> classifySpec (tbr, nb, ap, ar) = balancedRealist"
    by (simp add: classifySpec_def personaTable_def)
  have n4: "name thoroughEnjoyer = ''THOROUGH ENJOYER''"
    by (simp add: thoroughEnjoyer_def)
  have nf: "name balancedRealist = ''BALANCED REALIST''"
    by (simp add: balancedRealist_def)
  from eq tbl b4 fb n4 nf show ?thesis by simp
qed

theorem getAura_ordered_first_match_witness:
  "branch4 (0, 30, 400, 45 / 10) \<and> branch5 (0, 30, 400, 45 / 10)
   \<and> \<not> branch1 (0, 30, 400, 45 / 10) \<and> \<not> branch2 (0, 30, 400, 45 / 10)
   \<and> name (getAura 0 30 400 (45 / 10)) = ''THOROUGH ENJOYER''
   \<and> \<not> branch1 (0, 0, 0, 0) \<and> \<not> branch2 (0, 0, 0, 0) \<and> \<not> branch3 (0, 0, 0, 0)
   \<and> \<not> branch4 (0, 0, 0, 0) \<and> \<not> branch5 (0, 0, 0, 0)
   \<and> name (getAura 0 0 0 0) = ''BALANCED REALIST''"
proof -
  have a: "branch4 (0, 30, 400, 45 / 10) \<and> branch5 (0, 30, 400, 45 / 10)
      \<and> \<not> branch1 (0, 30, 400, 45 / 10) \<and> \<not> branch2 (0, 30, 400, 45 / 10)"
    by (simp add: branch1_def branch2_def branch4_def branch5_def)
  have b: "\<not> branch1 (0, 0, 0, 0) \<and> \<not> branch2 (0, 0, 0, 0) \<and> \<not> branch3 (0, 0, 0, 0)
      \<and> \<not> branch4 (0, 0, 0, 0) \<and> \<not> branch5 (0, 0, 0, 0)"
    by (simp add: branch1_def branch2_def branch3_def branch4_def branch5_def)
  from a getAura_ordered_first_match [of 0 30 400 "45 / 10"]
  have c: "name (getAura 0 30 400 (45 / 10)) = ''THOROUGH ENJOYER''" by blast
  from b getAura_ordered_first_match [of 0 0 0 0]
  have d: "name (getAura 0 0 0 0) = ''BALANCED REALIST''" by blast
  from a b c d show ?thesis by blast
qed

subsection \<open>Row normaliser\<close>









subsection \<open>Year filters\<close>

lemma inYear2025_iff:
  "inYear2025 v \<longleftrightarrow> (\<exists>d. v = Some d \<and> getFullYear d = Some 2025)"
  by (cases v) (simp_all add: inYear2025_def)

lemma storygraph_dateAdded:
  "b \<in> set (allBooks newDate parseFloat storygraph rows) \<Longrightarrow> dateAdded b = None"
  by (auto simp add: allBooks_def toBook_def)

lemma backfill_no_dateAdded: "dateAdded b = None \<Longrightarrow> backfill b = b"
  by (simp add: backfill_def)

lemma keepRead_no_dateAdded:
  "dateAdded b = None \<Longrightarrow> keepRead b \<longleftrightarrow> shelf b = Some ''read'' \<and> inYear2025 (dateRead b)"
  by (simp add: keepRead_def inYear2025_def)

lemma readIn2025_no_dateAdded:
  "\<forall>b \<in> set books. dateAdded b = None \<Longrightarrow>
   readIn2025 books = filter (\<lambda>b. shelf b = Some ''read'' \<and> inYear2025 (dateRead b)) books"
proof (induction books)
  case Nil
  then show ?case by (simp add: readIn2025_def)
next
  case (Cons b books)
  then have "readIn2025 books
      = filter (\<lambda>b. shelf b = Some ''read'' \<and> inYear2025 (dateRead b)) books"
    by simp
  moreover from Cons.prems have "dateAdded b = None" by simp
  ultimately show ?case
    using keepRead_no_dateAdded [of b] backfill_no_dateAdded [of b]
    by (simp add: readIn2025_def)
qed

text \<open>
  C6: the backlog count is the number of books on the shelf \<^verbatim>\<open>to-read\<close> whose add date
  is present and in 2025. The read date plays no part (replacing it by anything leaves
  the count unchanged), and a book on any other shelf adds nothing to the count.
\<close>

theorem tbrCount_exact:
  "tbrCount (processCSV newDate parseFloat src rows)
     = length (filter (\<lambda>b. shelf b = Some ''to-read''
                        \<and> (\<exists>d. dateAdded b = Some d \<and> getFullYear d = Some 2025))
                 (allBooks newDate parseFloat src rows))
   \<and> length (addedToTbr2025 (map (\<lambda>b. b\<lparr>dateRead := f b\<rparr>) books))
       = length (addedToTbr2025 books)
   \<and> (shelf b \<noteq> Some ''to-read''
        \<longrightarrow> length (addedToTbr2025 (xs @ b # ys)) = length (addedToTbr2025 (xs @ ys)))"
proof (intro conjI impI)
  show "tbrCount (processCSV newDate parseFloat src rows)
     = length (filter (\<lambda>b. shelf b = Some ''to-read''
                        \<and> (\<exists>d. dateAdded b = Some d \<and> getFullYear d = Some 2025))
                 (allBooks newDate parseFloat src rows))"
    by (simp add: processCSV_def addedToTbr2025_def inYear2025_iff Let_def)
next
  show "length (addedToTbr2025 (map (\<lambda>b. b\<lparr>dateRead := f b\<rparr>) books))
       = length (addedToTbr2025 books)"
    by (induction books) (simp_all add: addedToTbr2025_def)
next
  assume "shelf b \<noteq> Some ''to-read''"
  then show "length (addedToTbr2025 (xs @ b # ys)) = length (addedToTbr2025 (xs @ ys))"
    by (simp add: addedToTbr2025_def)
qed

theorem tbrCount_exact_witness:
  "shelf \<lparr>title = Some ''T'', author = Some ''A'', pages = 1, rating = 0, dateRead = None,
          dateAdded = Some (LocalDate 2025 Mar), shelf = Some ''read''\<rparr> \<noteq> Some ''to-read''
   \<and> length (addedToTbr2025
       ([] @ \<lparr>title = Some ''T'', author = Some ''A'', pages = 1, rating = 0, dateRead = None,
               dateAdded = Some (LocalDate 2025 Mar), shelf = Some ''read''\<rparr> # [])) = 0"
proof -
  let ?b = "\<lparr>title = Some ''T'', author = Some ''A'', pages = 1, rating = 0, dateRead = None,
          dateAdded = Some (LocalDate 2025 Mar), shelf = Some ''read''\<rparr>"
  have a: "shelf ?b \<noteq> Some ''to-read''" by simp
  from a tbrCount_exact [of "\<lambda>s. InvalidDate" "\<lambda>s. None" goodreads "[]" "\<lambda>b. None" "[]" ?b "[]" "[]"]
  have "length (addedToTbr2025 ([] @ ?b # [])) = length (addedToTbr2025 ([] @ []))" by blast
  then have "length (addedToTbr2025 ([] @ ?b # [])) = 0" by (simp add: addedToTbr2025_def)
  with a show ?thesis by blast
qed

text \<open>
  C10: with the source format \<^verbatim>\<open>storygraph\<close> every normalised record has no add date;
  so the backlog count is 0, and \<^verbatim>\<open>readIn2025\<close> keeps exactly the books on the shelf
  \<^verbatim>\<open>read\<close> whose own read date is in 2025, none of them admitted by the add date and none
  of them changed by the backfill.
\<close>

theorem storygraph_no_dateAdded:
  "(\<forall>b \<in> set (allBooks newDate parseFloat storygraph rows). dateAdded b = None)
   \<and> tbrCount (processCSV newDate parseFloat storygraph rows) = 0
   \<and> readData (processCSV newDate parseFloat storygraph rows)
       = filter (\<lambda>b. shelf b = Some ''read'' \<and> inYear2025 (dateRead b))
           (allBooks newDate parseFloat storygraph rows)"
proof (intro conjI)
  show all: "\<forall>b \<in> set (allBooks newDate parseFloat storygraph rows). dateAdded b = None"
    by (simp add: storygraph_dateAdded)
  have "filter (\<lambda>b. shelf b = Some ''to-read'' \<and> inYear2025 (dateAdded b))
          (allBooks newDate parseFloat storygraph rows) = []"
    using all by (auto simp add: filter_empty_conv inYear2025_def)
  then show "tbrCount (processCSV newDate parseFloat storygraph rows) = 0"
    by (simp add: processCSV_def addedToTbr2025_def Let_def)
  show "readData (processCSV newDate parseFloat storygraph rows)
       = filter (\<lambda>b. shelf b = Some ''read'' \<and> inYear2025 (dateRead b))
           (allBooks newDate parseFloat storygraph rows)"
    using readIn2025_no_dateAdded [OF all] by (simp add: processCSV_def Let_def)
qed

theorem storygraph_no_dateAdded_witness:
  "dateAdded (toBook (\<lambda>s. LocalDate 2025 Mar) (\<lambda>s. None) storygraph
      [''Read Status'' \<mapsto> ''to-read'', ''Read Date'' \<mapsto> ''2025/03/10'']) = None
   \<and> tbrCount (processCSV (\<lambda>s. LocalDate 2025 Mar) (\<lambda>s. None) storygraph
      [[''Read Status'' \<mapsto> ''to-read'', ''Read Date'' \<mapsto> ''2025/03/10'']]) = 0"
proof -
  let ?nd = "\<lambda>s::string. LocalDate 2025 Mar" and ?pf = "\<lambda>s::string. None :: rat option"
  let ?row = "[''Read Status'' \<mapsto> ''to-read'', ''Read Date'' \<mapsto> ''2025/03/10'']"
  have m: "toBook ?nd ?pf storygraph ?row \<in> set (allBooks ?nd ?pf storygraph [?row])"
    by (simp add: allBooks_def)
  from m storygraph_no_dateAdded [of ?nd ?pf "[?row]"]
  show ?thesis by blast
qed

subsection \<open>Statistics: the thickest book\<close>

lemma thickestBook_snoc:
  "thickestBook (rd @ [c])
     = (if thickPages (thickestBook rd) > pages c then thickestBook rd else Book c)"
  by (simp add: thickestBook_def)

lemma thickestBook_shape:
  "(thickestBook rd = Placeholder \<and> (\<forall>x \<in> set rd. pages x < 0))
   \<or> (\<exists>pre b post. rd = pre @ b # post \<and> thickestBook rd = Book b \<and> 0 \<le> pages b
         \<and> (\<forall>x \<in> set pre. pages x \<le> pages b) \<and> (\<forall>x \<in> set post. pages x < pages b))"
proof (induction rd rule: rev_induct)
  case Nil
  show ?case by (simp add: thickestBook_def)
next
  case (snoc c rd)
  from snoc.IH show ?case
  proof (elim disjE conjE exE)
    assume ph: "thickestBook rd = Placeholder" and neg: "\<forall>x \<in> set rd. pages x < 0"
    show ?thesis
    proof (cases "0 > pages c")
      case True
      with ph neg have "thickestBook (rd @ [c]) = Placeholder \<and> (\<forall>x \<in> set (rd @ [c]). pages x < 0)"
        by (simp add: thickestBook_snoc)
      then show ?thesis by blast
    next
      case False
      with ph have t: "thickestBook (rd @ [c]) = Book c"
        by (simp add: thickestBook_snoc)
      from False neg have le: "\<forall>x \<in> set rd. pages x \<le> pages c" by fastforce
      from False have "0 \<le> pages c" by simp
      with t le have "rd @ [c] = rd @ c # [] \<and> thickestBook (rd @ [c]) = Book c \<and> 0 \<le> pages c
          \<and> (\<forall>x \<in> set rd. pages x \<le> pages c) \<and> (\<forall>x \<in> set []. pages x < pages c)"
        by simp
      then show ?thesis by blast
    qed
  next
    fix pre b post
    assume rd: "rd = pre @ b # post" and tb: "thickestBook rd = Book b" and nn: "0 \<le> pages b"
      and pre: "\<forall>x \<in> set pre. pages x \<le> pages b" and post: "\<forall>x \<in> set post. pages x < pages b"
    show ?thesis
    proof (cases "pages b > pages c")
      case True
      with tb have t: "thickestBook (rd @ [c]) = Book b"
        by (simp add: thickestBook_snoc)
      from True post have post': "\<forall>x \<in> set (post @ [c]). pages x < pages b" by simp
      from rd have "rd @ [c] = pre @ b # (post @ [c])" by simp
      with t nn pre post' show ?thesis by blast
    next
      case False
      with tb have t: "thickestBook (rd @ [c]) = Book c"
        by (simp add: thickestBook_snoc)
      from False nn have nn': "0 \<le> pages c" by simp
      from False rd pre post have le: "\<forall>x \<in> set rd. pages x \<le> pages c" by fastforce
      from t nn' le have "rd @ [c] = rd @ c # [] \<and> thickestBook (rd @ [c]) = Book c \<and> 0 \<le> pages c
          \<and> (\<forall>x \<in> set rd. pages x \<le> pages c) \<and> (\<forall>x \<in> set []. pages x < pages c)"
        by simp
      then show ?thesis by blast
    qed
  qed
qed

text \<open>
  C3, as stated, fails twice. The reducer keeps \<^verbatim>\<open>prev\<close> only when it has strictly more
  pages, so of two books that tie for the maximum the one that comes last is returned,
  not the first. And the object returned for an empty list has the title and the author
  \<^verbatim>\<open>-\<close>, not the empty text.
\<close>

theorem thickestBook_tie_counterexample:
  "thickestBook
     [\<lparr>title = Some ''A'', author = Some ''X'', pages = 300, rating = 0, dateRead = None,
        dateAdded = None, shelf = Some ''read''\<rparr>,
      \<lparr>title = Some ''B'', author = Some ''Y'', pages = 300, rating = 0, dateRead = None,
        dateAdded = None, shelf = Some ''read''\<rparr>]
     = Book \<lparr>title = Some ''B'', author = Some ''Y'', pages = 300, rating = 0, dateRead = None,
        dateAdded = None, shelf = Some ''read''\<rparr>
   \<and> thickTitle (thickestBook
       [\<lparr>title = Some ''A'', author = Some ''X'', pages = 300, rating = 0, dateRead = None,
          dateAdded = None, shelf = Some ''read''\<rparr>,
        \<lparr>title = Some ''B'', author = Some ''Y'', pages = 300, rating = 0, dateRead = None,
          dateAdded = None, shelf = Some ''read''\<rparr>]) \<noteq> Some ''A''
   \<and> thickTitle (thickestBook []) \<noteq> Some []
   \<and> thickAuthor (thickestBook []) \<noteq> Some []"
  by (simp add: thickestBook_def)

text \<open>
  C3, amended: when some record of completedInYear has at least 0 pages, thickestBook
  returns a record of completedInYear with maximum pages, and when two or more records
  tie for the maximum, the last of them in iteration order; when completedInYear is
  empty, the placeholder with title \<^verbatim>\<open>-\<close>, author \<^verbatim>\<open>-\<close> and 0 pages is returned.
\<close>

theorem thickestBook_last_maximum:
  "((\<exists>x \<in> set rd. 0 \<le> pages x) \<longrightarrow>
      (\<exists>pre b post. rd = pre @ b # post \<and> thickestBook rd = Book b
         \<and> (\<forall>x \<in> set rd. pages x \<le> pages b) \<and> (\<forall>x \<in> set post. pages x < pages b)))
   \<and> thickestBook [] = Placeholder
   \<and> thickTitle Placeholder = Some ''-'' \<and> thickAuthor Placeholder = Some ''-''
   \<and> thickPages Placeholder = 0"
proof (intro conjI impI)
  assume some: "\<exists>x \<in> set rd. 0 \<le> pages x"
  then have "\<not> (\<forall>x \<in> set rd. pages x < 0)" by fastforce
  with thickestBook_shape [of rd]
  obtain pre b post where rd: "rd = pre @ b # post" and tb: "thickestBook rd = Book b"
    and pre: "\<forall>x \<in> set pre. pages x \<le> pages b" and post: "\<forall>x \<in> set post. pages x < pages b"
    by blast
  from rd pre post have "\<forall>x \<in> set rd. pages x \<le> pages b" by fastforce
  with rd tb post
  show "\<exists>pre b post. rd = pre @ b # post \<and> thickestBook rd = Book b
         \<and> (\<forall>x \<in> set rd. pages x \<le> pages b) \<and> (\<forall>x \<in> set post. pages x < pages b)"
    by blast
qed (simp_all add: thickestBook_def)

theorem thickestBook_last_maximum_witness:
  "thickestBook
     [\<lparr>title = Some ''A'', author = Some ''X'', pages = 300, rating = 0, dateRead = None,
        dateAdded = None, shelf = Some ''read''\<rparr>,
      \<lparr>title = Some ''B'', author = Some ''Y'', pages = 120, rating = 0, dateRead = None,
        dateAdded = None, shelf = Some ''read''\<rparr>]
     = Book \<lparr>title = Some ''A'', author = Some ''X'', pages = 300, rating = 0, dateRead = None,
        dateAdded = None, shelf = Some ''read''\<rparr>"
proof -
  let ?a = "\<lparr>title = Some ''A'', author = Some ''X'', pages = 300, rating = 0,
      dateRead = None, dateAdded = None, shelf = Some ''read''\<rparr>"
  let ?b = "\<lparr>title = Some ''B'', author = Some ''Y'', pages = 120, rating = 0,
      dateRead = None, dateAdded = None, shelf = Some ''read''\<rparr>"
  have "\<exists>x \<in> set [?a, ?b]. 0 \<le> pages x" by simp
  with thickestBook_last_maximum [of "[?a, ?b]"]
  obtain pre b post where rd: "[?a, ?b] = pre @ b # post" and tb: "thickestBook [?a, ?b] = Book b"
    and mx: "\<forall>x \<in> set [?a, ?b]. pages x \<le> pages b"
    by blast
  from rd have "b \<in> set [?a, ?b]" by (metis in_set_conv_decomp)
  then have "b = ?a \<or> b = ?b" by simp
  moreover from mx have "pages ?a \<le> pages b" by simp
  ultimately have "b = ?a" by auto
  with tb show ?thesis by simp
qed

subsection \<open>Statistics: an upload without rows\<close>

lemma showNat_digit: "n < 10 \<Longrightarrow> showNat n = [digitChar n]"
  by (simp add: showNat.simps)

lemma toFixed1_zero: "toFixed1 0 = ''0.0''"
  by (simp add: toFixed1_def showNat_digit digitChar_def)

text \<open>
  C7: an upload without rows leaves \<^verbatim>\<open>readData\<close> empty and \<^verbatim>\<open>tbrCount\<close> at 0, for
  either source format, and every statistic degenerates: no books, 0 pages on average,
  the average rating printed as \<^verbatim>\<open>0.0\<close>, the placeholder with 0 pages as thickest book,
  no top books, no top authors (and no exception), and the fallback persona.
\<close>

theorem empty_upload_degenerates:
  "readData (processCSV newDate parseFloat src []) = []
   \<and> tbrCount (processCSV newDate parseFloat src []) = 0
   \<and> totalBooks (readData (processCSV newDate parseFloat src [])) = 0
   \<and> avgPages (readData (processCSV newDate parseFloat src [])) = 0
   \<and> avgRating (readData (processCSV newDate parseFloat src [])) = ''0.0''
   \<and> thickestBook (readData (processCSV newDate parseFloat src [])) = Placeholder
   \<and> thickPages (thickestBook (readData (processCSV newDate parseFloat src []))) = 0
   \<and> topBooks (readData (processCSV newDate parseFloat src [])) = []
   \<and> topAuthors (readData (processCSV newDate parseFloat src [])) = Inr []
   \<and> aura (processCSV newDate parseFloat src []) = balancedRealist
   \<and> name (aura (processCSV newDate parseFloat src [])) = ''BALANCED REALIST''"
proof -
  have st: "processCSV newDate parseFloat src [] = \<lparr>readData = [], tbrCount = 0\<rparr>"
    by (simp add: processCSV_def allBooks_def readIn2025_def addedToTbr2025_def)
  have tb: "totalBooks [] = 0" by (simp add: totalBooks_def)
  have ap: "avgPages [] = 0" by (simp add: avgPages_def totalBooks_def)
  have ar: "avgRating [] = ''0.0''"
    by (simp add: avgRating_def avgRatingVal_def totalBooks_def toFixed1_zero)
  have th: "thickestBook [] = Placeholder" by (simp add: thickestBook_def)
  have bo: "topBooks [] = []" by (simp add: topBooks_def sortBy_def)
  have au: "topAuthors [] = Inr []"
    by (simp add: topAuthors_def authorCounts_def Object_entries_def sortBy_def)
  have pe: "aura \<lparr>readData = [], tbrCount = 0\<rparr> = balancedRealist"
    by (simp add: aura_def getAura_def totalBooks_def avgPages_def avgRatingVal_def)
  have nm: "name balancedRealist = ''BALANCED REALIST''" by (simp add: balancedRealist_def)
  from st tb ap ar th bo au pe nm show ?thesis by simp
qed

theorem empty_upload_degenerates_witness:
  "avgRating (readData (processCSV (\<lambda>s. InvalidDate) (\<lambda>s. None) goodreads [])) = ''0.0''
   \<and> topAuthors (readData (processCSV (\<lambda>s. InvalidDate) (\<lambda>s. None) storygraph [])) = Inr []
   \<and> name (aura (processCSV (\<lambda>s. InvalidDate) (\<lambda>s. None) storygraph [])) = ''BALANCED REALIST''"
  using empty_upload_degenerates [of "\<lambda>s. InvalidDate" "\<lambda>s. None" goodreads]
    empty_upload_degenerates [of "\<lambda>s. InvalidDate" "\<lambda>s. None" storygraph]
  by blast

subsection \<open>Sorting with a comparison function\<close>

text \<open>
  When the comparison function orders by a key, the sort is the stable sort by that key.
\<close>

lemma insertBy_insort_key:
  assumes "\<And>a b. cmp a b \<le> 0 \<longleftrightarrow> f a \<le> f b"
  shows "insertBy cmp x ys = insort_key f x ys"
  by (induction ys) (simp_all add: assms)

lemma sortBy_sort_key:
  assumes "\<And>a b. cmp a b \<le> 0 \<longleftrightarrow> f a \<le> f b"
  shows "sortBy cmp xs = sort_key f xs"
proof -
  have "insertBy cmp = insort_key f"
    by (intro ext) (rule insertBy_insort_key [OF assms])
  then show ?thesis by (simp add: sortBy_def sort_key_def)
qed

subsection \<open>Statistics: the top books\<close>

lemma topBooks_cmp_key:
  "(if rating b \<noteq> rating a then rating b - rating a else of_int (pages b - pages a)) \<le> (0::rat)
   \<longleftrightarrow> (- rating a, - pages a) \<le> (- rating b, - pages b)"
  by (auto simp add: less_eq_prod_def less_prod_def)

lemma topBooks_sort_key:
  "topBooks rd = take 5 (sort_key (\<lambda>b. (- rating b, - pages b)) (filter (\<lambda>b. rating b > 0) rd))"
  unfolding topBooks_def
  by (subst sortBy_sort_key [where f = "\<lambda>b. (- rating b, - pages b)"])
    (simp_all add: topBooks_cmp_key)

text \<open>
  C4: \<^verbatim>\<open>topBooks\<close> is the first five entries of a list that holds exactly the records of
  completedInYear with a rating above 0 (each as often as it occurs there) in descending
  order of rating and, at equal rating, descending order of pages. So it has at most five
  entries and no record with rating 0; and three books rated 5, 5, 4 with 100, 300 and
  999 pages come out as 300/5, 100/5, 999/4.
\<close>

theorem topBooks_ranked:
  "(\<exists>full. topBooks rd = take 5 full
       \<and> mset full = mset (filter (\<lambda>b. rating b > 0) rd)
       \<and> sorted_wrt (\<lambda>x y. rating x > rating y \<or> (rating x = rating y \<and> pages x \<ge> pages y)) full)
   \<and> length (topBooks rd) \<le> 5
   \<and> (\<forall>x \<in> set (topBooks rd). x \<in> set rd \<and> rating x > 0)
   \<and> (rating a = 5 \<and> pages a = 100 \<and> rating b = 5 \<and> pages b = 300
        \<and> rating c = 4 \<and> pages c = 999
      \<longrightarrow> topBooks [a, b, c] = [b, a, c])"
proof (intro conjI impI)
  let ?key = "\<lambda>b::BookData. (- rating b, - pages b)"
  let ?full = "sort_key ?key (filter (\<lambda>b. rating b > 0) rd)"
  have 1: "topBooks rd = take 5 ?full" by (rule topBooks_sort_key)
  have 2: "mset ?full = mset (filter (\<lambda>b. rating b > 0) rd)" by simp
  have "sorted (map ?key ?full)" by (rule sorted_sort_key)
  then have "sorted_wrt (\<lambda>x y. ?key x \<le> ?key y) ?full"
    by (simp add: sorted_wrt_map)
  then have 3: "sorted_wrt (\<lambda>x y. rating x > rating y \<or> (rating x = rating y \<and> pages x \<ge> pages y))
      ?full"
    by (rule sorted_wrt_mono_rel [rotated]) (auto simp add: less_eq_prod_def less_prod_def)
  from 1 2 3
  show "\<exists>full. topBooks rd = take 5 full
       \<and> mset full = mset (filter (\<lambda>b. rating b > 0) rd)
       \<and> sorted_wrt (\<lambda>x y. rating x > rating y \<or> (rating x = rating y \<and> pages x \<ge> pages y)) full"
    by blast
  show "length (topBooks rd) \<le> 5" by (simp add: 1)
  show "\<forall>x \<in> set (topBooks rd). x \<in> set rd \<and> rating x > 0"
  proof
    fix x assume "x \<in> set (topBooks rd)"
    with 1 have "x \<in> set ?full" by (auto dest: in_set_takeD)
    then show "x \<in> set rd \<and> rating x > 0" by simp
  qed
next
  assume "rating a = 5 \<and> pages a = 100 \<and> rating b = 5 \<and> pages b = 300
        \<and> rating c = 4 \<and> pages c = 999"
  then show "topBooks [a, b, c] = [b, a, c]"
    by (simp add: topBooks_def sortBy_def)
qed

theorem topBooks_ranked_witness:
  "topBooks
     [\<lparr>title = Some ''A'', author = Some ''X'', pages = 100, rating = 5, dateRead = None,
        dateAdded = None, shelf = Some ''read''\<rparr>,
      \<lparr>title = Some ''B'', author = Some ''Y'', pages = 300, rating = 5, dateRead = None,
        dateAdded = None, shelf = Some ''read''\<rparr>,
      \<lparr>title = Some ''C'', author = Some ''Z'', pages = 999, rating = 4, dateRead = None,
        dateAdded = None, shelf = Some ''read''\<rparr>]
   = [\<lparr>title = Some ''B'', author = Some ''Y'', pages = 300, rating = 5, dateRead = None,
        dateAdded = None, shelf = Some ''read''\<rparr>,
      \<lparr>title = Some ''A'', author = Some ''X'', pages = 100, rating = 5, dateRead = None,
        dateAdded = None, shelf = Some ''read''\<rparr>,
      \<lparr>title = Some ''C'', author = Some ''Z'', pages = 999, rating = 4, dateRead = None,
        dateAdded = None, shelf = Some ''read''\<rparr>]"
proof -
  let ?a = "\<lparr>title = Some ''A'', author = Some ''X'', pages = 100, rating = 5,
      dateRead = None, dateAdded = None, shelf = Some ''read''\<rparr>"
  let ?b = "\<lparr>title = Some ''B'', author = Some ''Y'', pages = 300, rating = 5,
      dateRead = None, dateAdded = None, shelf = Some ''read''\<rparr>"
  let ?c = "\<lparr>title = Some ''C'', author = Some ''Z'', pages = 999, rating = 4,
      dateRead = None, dateAdded = None, shelf = Some ''read''\<rparr>"
  have h: "rating ?a = 5 \<and> pages ?a = 100 \<and> rating ?b = 5 \<and> pages ?b = 300
        \<and> rating ?c = 4 \<and> pages ?c = 999"
    by simp
  from h topBooks_ranked [of "[]" ?a ?b ?c] show ?thesis by blast
qed

subsection \<open>Tallies in an object\<close>

lemma map_of_setProp: "map_of (setProp obj k v) = (map_of obj)(k \<mapsto> v)"
  by (induction obj k v rule: setProp.induct) auto

lemma keys_setProp:
  "map fst (setProp obj k v)
     = (if k \<in> set (map fst obj) then map fst obj else map fst obj @ [k])"
  by (induction obj k v rule: setProp.induct) auto

lemma getProp_bump:
  "orZero (getProp (bump obj k) k') = orZero (getProp obj k') + (if k' = k then 1 else 0)"
  by (simp add: bump_def getProp_def map_of_setProp orZero_def)

lemma keys_bump:
  "map fst (bump obj k) = (if k \<in> set (map fst obj) then map fst obj else map fst obj @ [k])"
  by (simp add: bump_def keys_setProp)

lemma count_tally:
  "orZero (getProp (foldl bump obj ks) k) = orZero (getProp obj k) + count_list ks k"
  by (induction ks arbitrary: obj) (simp_all add: getProp_bump)

lemma set_firstSeen [simp]: "set (firstSeen xs) = set xs"
  by (induction xs) auto

lemma distinct_firstSeen [simp]: "distinct (firstSeen xs)"
  by (induction xs) (simp_all add: distinct_removeAll)

lemma keys_tally:
  "map fst (foldl bump obj ks)
     = map fst obj @ filter (\<lambda>k. k \<notin> set (map fst obj)) (firstSeen ks)"
proof (induction ks arbitrary: obj)
  case Nil
  show ?case by simp
next
  case (Cons k ks)
  show ?case
  proof (cases "k \<in> set (map fst obj)")
    case True
    then have "filter (\<lambda>k. k \<notin> set (map fst obj)) (removeAll k (firstSeen ks))
        = filter (\<lambda>k. k \<notin> set (map fst obj)) (firstSeen ks)"
      by (auto simp add: removeAll_filter_not_eq intro: filter_cong)
    with True Cons.IH [of "bump obj k"] show ?thesis
      by (simp add: keys_bump)
  next
    case False
    have "filter (\<lambda>x. x \<noteq> k \<and> x \<notin> set (map fst obj)) (firstSeen ks)
        = filter (\<lambda>x. x \<notin> set (map fst obj)) (removeAll k (firstSeen ks))"
      by (auto simp add: removeAll_filter_not_eq intro: filter_cong)
    with False Cons.IH [of "bump obj k"] show ?thesis
      by (simp add: keys_bump)
  qed
qed

lemma keys_tally_empty: "map fst (foldl bump [] ks) = firstSeen ks"
  by (simp add: keys_tally)

lemma entry_tally:
  assumes "e \<in> set (foldl bump [] ks)"
  shows "snd e = count_list ks (fst e)"
proof -
  have "distinct (map fst (foldl bump [] ks))" by (simp add: keys_tally_empty)
  moreover from assms have "(fst e, snd e) \<in> set (foldl bump [] ks)" by simp
  ultimately have "map_of (foldl bump [] ks) (fst e) = Some (snd e)"
    by (simp only: map_of_eq_Some_iff)
  then have "orZero (getProp (foldl bump [] ks) (fst e)) = snd e"
    by (simp add: getProp_def orZero_def)
  with count_tally [of "[]" ks "fst e"] show ?thesis
    by (simp add: getProp_def orZero_def)
qed




lemma set_Object_entries: "set (Object_entries obj) = set obj"
  by (auto simp add: Object_entries_def)

lemma mset_Object_entries: "mset (Object_entries obj) = mset obj"
  by (simp add: Object_entries_def)

subsection \<open>Statistics: the top authors\<close>


lemma topAuthors_cmp_key:
  "int (snd b) - int (snd a) \<le> 0 \<longleftrightarrow> - int (snd a) \<le> - int (snd b)"
  by simp








subsection \<open>Statistics: the most active month\<close>

lemma monthKey_values:
  "monthKey Jan = ''0''" "monthKey Feb = ''1''" "monthKey Mar = ''2''" "monthKey Apr = ''3''"
  "monthKey May = ''4''" "monthKey Jun = ''5''" "monthKey Jul = ''6''" "monthKey Aug = ''7''"
  "monthKey Sep = ''8''" "monthKey Oct = ''9''" "monthKey Nov = ''10''" "monthKey Dec = ''11''"
  by (simp_all add: monthKey_def numberKey_def showNat.simps digitChar_def)

lemma monthIndex_less: "monthIndex m < 12"
  by (cases m) simp_all

lemma monthIndex_inj: "monthIndex m = monthIndex m' \<longleftrightarrow> m = m'"
  by (cases m; cases m') simp_all

lemma mathInt_monthKey: "mathInt 10 (monthKey m) = int (monthIndex m)"
  by (cases m) (simp_all add: monthKey_values mathInt_def digitValue_def)

lemma isArrayIndex_monthKey: "isArrayIndex (monthKey m)"
  by (cases m) (simp_all add: monthKey_values isArrayIndex_def mathInt_def digitValue_def)

lemma parseInt_monthKey: "parseInt (monthKey m) = Some (int (monthIndex m))"
  by (cases m)
    (simp_all add: monthKey_values parseInt_def isWhiteSpace_def mathInt_def digitValue_def)

lemma monthKey_inj: "monthKey m = monthKey m' \<longleftrightarrow> m = m'"
proof
  assume "monthKey m = monthKey m'"
  then have "mathInt 10 (monthKey m) = mathInt 10 (monthKey m')" by simp
  then show "m = m'" by (simp add: mathInt_monthKey monthIndex_inj)
qed simp

lemma monthNameAt_monthIndex:
  "monthNameAt (Some (int (monthIndex m))) = monthNames ! monthIndex m"
  using monthIndex_less [of m] by (simp add: monthNameAt_def monthNames_def)

lemma monthCounts_tally_from:
  "foldl (\<lambda>obj book. case dateRead book of
                        None \<Rightarrow> obj
                      | Some d \<Rightarrow> bump obj (numberKey (getMonth d))) obj rd
     = foldl bump obj (monthKeys rd)"
  by (induction rd arbitrary: obj) (simp_all add: monthKeys_def split: option.splits)

lemma monthCounts_tally: "monthCounts rd = foldl bump [] (monthKeys rd)"
  by (simp add: monthCounts_def monthCounts_tally_from)

lemma NaN_not_monthKey: "monthKey m \<noteq> ''NaN''"
  by (cases m) (simp_all add: monthKey_values)

lemma count_monthKeys: "count_list (monthKeys rd) (monthKey m) = monthCount m rd"
proof (induction rd)
  case Nil
  show ?case by (simp add: monthKeys_def monthCount_def)
next
  case (Cons book rd)
  have step: "count_list (monthKeys (book # rd)) (monthKey m)
      = (if readInMonth m book then 1 else 0) + count_list (monthKeys rd) (monthKey m)"
  proof (cases "dateRead book")
    case None
    then show ?thesis by (simp add: monthKeys_def readInMonth_def)
  next
    case (Some d)
    show ?thesis
    proof (cases d)
      case InvalidDate
      with Some NaN_not_monthKey [of m] show ?thesis
        by (auto simp add: monthKeys_def readInMonth_def numberKey_def)
    next
      case (LocalDate y m')
      have "numberKey (getMonth (LocalDate y m')) = monthKey m'"
        by (simp add: monthKey_def)
      with Some LocalDate show ?thesis
        by (simp add: monthKeys_def readInMonth_def monthKey_inj)
    qed
  qed
  with Cons.IH show ?case by (simp add: monthCount_def)
qed

lemma monthKeys_dated:
  assumes "\<forall>b \<in> set rd. \<exists>y m. dateRead b = Some (LocalDate y m)"
  shows "\<forall>k \<in> set (monthKeys rd). \<exists>m. k = monthKey m"
  using assms by (induction rd) (auto simp add: monthKeys_def monthKey_def)

lemma monthKeys_nonempty:
  assumes "\<forall>b \<in> set rd. \<exists>y m. dateRead b = Some (LocalDate y m)" and "rd \<noteq> []"
  shows "monthKeys rd \<noteq> []"
  using assms by (cases rd) (auto simp add: monthKeys_def)

lemma monthCounts_keys: "fst ` set (monthCounts rd) = set (monthKeys rd)"
proof -
  have "set (map fst (monthCounts rd)) = set (firstSeen (monthKeys rd))"
    by (simp only: monthCounts_tally keys_tally_empty)
  then show ?thesis by simp
qed

lemma monthCounts_entry:
  assumes "e \<in> set (monthCounts rd)"
  shows "fst e \<in> set (monthKeys rd) \<and> snd e = count_list (monthKeys rd) (fst e) \<and> 0 < snd e"
proof -
  from assms have k: "fst e \<in> set (monthKeys rd)"
    using monthCounts_keys [of rd] by force
  from assms have c: "snd e = count_list (monthKeys rd) (fst e)"
    by (simp add: monthCounts_tally entry_tally)
  from k have "count_list (monthKeys rd) (fst e) \<noteq> 0"
    by (simp add: count_list_0_iff)
  with k c show ?thesis by simp
qed

lemma monthCounts_has:
  assumes "0 < monthCount m rd"
  shows "(monthKey m, monthCount m rd) \<in> set (monthCounts rd)"
proof -
  from assms have "count_list (monthKeys rd) (monthKey m) \<noteq> 0"
    by (simp add: count_monthKeys)
  then have "monthKey m \<in> fst ` set (monthCounts rd)"
    by (simp add: count_list_0_iff monthCounts_keys)
  then obtain v where v: "(monthKey m, v) \<in> set (monthCounts rd)" by auto
  from monthCounts_entry [OF v] have "v = monthCount m rd"
    by (simp add: count_monthKeys)
  with v show ?thesis by simp
qed

lemma Object_entries_months:
  assumes "\<forall>b \<in> set rd. \<exists>y m. dateRead b = Some (LocalDate y m)"
  shows "Object_entries (monthCounts rd)
     = sort_key (\<lambda>e. mathInt 10 (fst e)) (monthCounts rd)"
proof -
  have "\<forall>e \<in> set (monthCounts rd). isArrayIndex (fst e)"
  proof
    fix e assume "e \<in> set (monthCounts rd)"
    then have "fst e \<in> set (monthKeys rd)" by (simp add: monthCounts_entry)
    with monthKeys_dated [OF assms] obtain m where "fst e = monthKey m" by blast
    then show "isArrayIndex (fst e)" by (simp add: isArrayIndex_monthKey)
  qed
  then have "filter (\<lambda>e. isArrayIndex (fst e)) (monthCounts rd) = monthCounts rd"
    and "filter (\<lambda>e. \<not> isArrayIndex (fst e)) (monthCounts rd) = []"
    by (simp_all add: filter_empty_conv)
  then show ?thesis by (simp add: Object_entries_def)
qed

lemma scanMax_snoc:
  "scanMax (es @ [(m, c)])
     = (if int c > snd (scanMax es) then (parseInt m, int c) else scanMax es)"
  by (simp add: scanMax_def split: prod.splits)

lemma scanMax_shape:
  "(es = [] \<and> scanMax es = (Some (- 1), - 1))
   \<or> (\<exists>pre k c post. es = pre @ (k, c) # post \<and> scanMax es = (parseInt k, int c)
         \<and> (\<forall>e \<in> set pre. snd e < c) \<and> (\<forall>e \<in> set post. snd e \<le> c))"
proof (induction es rule: rev_induct)
  case Nil
  show ?case by (simp add: scanMax_def)
next
  case (snoc x es)
  obtain m n where x: "x = (m, n)" by (cases x)
  from snoc.IH show ?case
  proof (elim disjE conjE exE)
    assume "es = []" and "scanMax es = (Some (- 1), - 1)"
    then have "es @ [x] = [] @ (m, n) # [] \<and> scanMax (es @ [x]) = (parseInt m, int n)
        \<and> (\<forall>e \<in> set []. snd e < n) \<and> (\<forall>e \<in> set []. snd e \<le> n)"
      by (simp add: x scanMax_def)
    then show ?thesis by blast
  next
    fix pre k c post
    assume es: "es = pre @ (k, c) # post" and sm: "scanMax es = (parseInt k, int c)"
      and pre: "\<forall>e \<in> set pre. snd e < c" and post: "\<forall>e \<in> set post. snd e \<le> c"
    show ?thesis
    proof (cases "n > c")
      case True
      with sm have t: "scanMax (es @ [x]) = (parseInt m, int n)"
        by (simp add: x scanMax_snoc)
      from True es pre post have lt: "\<forall>e \<in> set es. snd e < n" by fastforce
      from t lt have "es @ [x] = es @ (m, n) # [] \<and> scanMax (es @ [x]) = (parseInt m, int n)
          \<and> (\<forall>e \<in> set es. snd e < n) \<and> (\<forall>e \<in> set []. snd e \<le> n)"
        by (simp add: x)
      then show ?thesis by blast
    next
      case False
      with sm have t: "scanMax (es @ [x]) = (parseInt k, int c)"
        by (simp add: x scanMax_snoc)
      from False post have post': "\<forall>e \<in> set (post @ [x]). snd e \<le> c" by (simp add: x)
      from es have "es @ [x] = pre @ (k, c) # (post @ [x])" by simp
      with t pre post' show ?thesis by blast
    qed
  qed
qed

lemma getFullYear_Some: "getFullYear d = Some y \<Longrightarrow> \<exists>m. d = LocalDate y m"
  by (cases d) simp_all

lemma inYear2025_dated: "inYear2025 v \<Longrightarrow> \<exists>m. v = Some (LocalDate 2025 m)"
  by (auto simp add: inYear2025_iff dest: getFullYear_Some)

lemma backfill_keepRead_dated:
  assumes "keepRead b"
  shows "\<exists>m. dateRead (backfill b) = Some (LocalDate 2025 m)"
proof (cases "inYear2025 (dateRead b)")
  case True
  then obtain m where "dateRead b = Some (LocalDate 2025 m)"
    using inYear2025_dated by blast
  then show ?thesis by (simp add: backfill_def)
next
  case False
  with assms have none: "dateRead b = None" and added: "inYear2025 (dateAdded b)"
    by (simp_all add: keepRead_def split: if_splits)
  from added obtain m where "dateAdded b = Some (LocalDate 2025 m)"
    using inYear2025_dated by blast
  with none show ?thesis by (simp add: backfill_def)
qed

lemma readIn2025_dated:
  "\<forall>b \<in> set (readIn2025 books). \<exists>y m. dateRead b = Some (LocalDate y m)"
  using backfill_keepRead_dated by (fastforce simp add: readIn2025_def)

lemma showInt_int: "showInt (int c) = showNat c"
  by (simp add: showInt_def)

lemma peak_of_dated:
  assumes dated: "\<forall>b \<in> set rd. \<exists>y m. dateRead b = Some (LocalDate y m)" and ne: "rd \<noteq> []"
  shows "\<exists>m. getMostActiveMonth rd
               = monthNames ! monthIndex m @ '' ('' @ showNat (monthCount m rd) @ '' BUKU)''
            \<and> 0 < monthCount m rd
            \<and> (\<forall>m'. monthCount m' rd \<le> monthCount m rd)
            \<and> (\<forall>m'. monthIndex m' < monthIndex m \<longrightarrow> monthCount m' rd < monthCount m rd)"
proof -
  let ?key = "\<lambda>e :: string \<times> nat. mathInt 10 (fst e)"
  let ?es = "Object_entries (monthCounts rd)"
  have es: "?es = sort_key ?key (monthCounts rd)"
    by (rule Object_entries_months [OF dated])
  have set_es: "set ?es = set (monthCounts rd)" by (rule set_Object_entries)
  have sorted_es: "sorted (map ?key ?es)" unfolding es by (rule sorted_sort_key)
  from monthKeys_nonempty [OF dated ne] have "set (monthKeys rd) \<noteq> {}" by simp
  then have "fst ` set (monthCounts rd) \<noteq> {}" by (simp add: monthCounts_keys)
  with set_es have "?es \<noteq> []" by auto
  with scanMax_shape [of ?es]
  obtain pre k c post where split: "?es = pre @ (k, c) # post"
    and sm: "scanMax ?es = (parseInt k, int c)"
    and pre: "\<forall>e \<in> set pre. snd e < c" and post: "\<forall>e \<in> set post. snd e \<le> c"
    by blast
  from split set_es have "(k, c) \<in> set (monthCounts rd)"
    by (metis in_set_conv_decomp)
  from monthCounts_entry [OF this]
  have k: "k \<in> set (monthKeys rd)" and c: "c = count_list (monthKeys rd) k" and pos: "0 < c"
    by simp_all
  from k monthKeys_dated [OF dated] obtain m where m: "k = monthKey m" by blast
  from c m have cm: "c = monthCount m rd" by (simp add: count_monthKeys)
  from sm m have sm': "scanMax ?es = (Some (int (monthIndex m)), int c)"
    by (simp add: parseInt_monthKey)
  from ne have "getMostActiveMonth rd
      = monthNameAt (Some (int (monthIndex m))) @ '' ('' @ showInt (int c) @ '' BUKU)''"
    by (simp add: getMostActiveMonth_def sm')
  then have 1: "getMostActiveMonth rd
      = monthNames ! monthIndex m @ '' ('' @ showNat (monthCount m rd) @ '' BUKU)''"
    by (simp only: monthNameAt_monthIndex showInt_int cm)
  have inside: "(monthKey m', monthCount m' rd) \<in> set ?es" if "0 < monthCount m' rd" for m'
    using monthCounts_has [OF that] set_es by simp
  have 2: "\<forall>m'. monthCount m' rd \<le> monthCount m rd"
  proof
    fix m'
    show "monthCount m' rd \<le> monthCount m rd"
    proof (cases "0 < monthCount m' rd")
      case True
      from inside [OF True] split
      have "(monthKey m', monthCount m' rd) \<in> set pre \<union> {(k, c)} \<union> set post" by simp
      with pre post cm show ?thesis by fastforce
    next
      case False
      then show ?thesis by simp
    qed
  qed
  have 3: "\<forall>m'. monthIndex m' < monthIndex m \<longrightarrow> monthCount m' rd < monthCount m rd"
  proof (intro allI impI)
    fix m' assume less: "monthIndex m' < monthIndex m"
    show "monthCount m' rd < monthCount m rd"
    proof (cases "0 < monthCount m' rd")
      case True
      let ?e = "(monthKey m', monthCount m' rd)"
      from inside [OF True] split
      have mem: "?e \<in> set pre \<union> {(k, c)} \<union> set post" by simp
      from sorted_es split have "\<forall>p \<in> set post. ?key (k, c) \<le> ?key p"
        by (simp add: sorted_append)
      then have "\<forall>p \<in> set post. int (monthIndex m) \<le> ?key p"
        by (simp add: m mathInt_monthKey)
      moreover have "?key ?e = int (monthIndex m')" by (simp add: mathInt_monthKey)
      ultimately have "?e \<notin> set post" using less by fastforce
      moreover from less have "?e \<noteq> (k, c)" by (auto simp add: m monthKey_inj)
      ultimately have "?e \<in> set pre" using mem by blast
      with pre cm show ?thesis by fastforce
    next
      case False
      with pos cm show ?thesis by simp
    qed
  qed
  from 1 2 3 pos cm show ?thesis by blast
qed

text \<open>
  C5: \<^verbatim>\<open>peakMonth\<close> names the calendar month that holds the read date, after the backfill,
  of the most records of completedInYear, together with that count; no month has a
  larger count, and every month with a lower number has a strictly smaller one, so the
  lower month number wins a tie. For an empty completedInYear it is the placeholder
  \<^verbatim>\<open>-\<close>.
\<close>

theorem peakMonth_most_active:
  "peakMonth rd = getMostActiveMonth rd
   \<and> (readIn2025 books = [] \<longrightarrow> peakMonth (readIn2025 books) = ''-'')
   \<and> (readIn2025 books \<noteq> [] \<longrightarrow>
        (\<exists>m. peakMonth (readIn2025 books)
                = monthNames ! monthIndex m @ '' (''
                  @ showNat (monthCount m (readIn2025 books)) @ '' BUKU)''
            \<and> 0 < monthCount m (readIn2025 books)
            \<and> (\<forall>m'. monthCount m' (readIn2025 books) \<le> monthCount m (readIn2025 books))
            \<and> (\<forall>m'. monthIndex m' < monthIndex m
                  \<longrightarrow> monthCount m' (readIn2025 books) < monthCount m (readIn2025 books))))"
proof (intro conjI impI)
  show "peakMonth rd = getMostActiveMonth rd" by (simp add: peakMonth_def)
next
  assume "readIn2025 books = []"
  then show "peakMonth (readIn2025 books) = ''-''"
    by (simp add: peakMonth_def getMostActiveMonth_def)
next
  assume "readIn2025 books \<noteq> []"
  from peak_of_dated [OF readIn2025_dated this]
  show "\<exists>m. peakMonth (readIn2025 books)
                = monthNames ! monthIndex m @ '' (''
                  @ showNat (monthCount m (readIn2025 books)) @ '' BUKU)''
            \<and> 0 < monthCount m (readIn2025 books)
            \<and> (\<forall>m'. monthCount m' (readIn2025 books) \<le> monthCount m (readIn2025 books))
            \<and> (\<forall>m'. monthIndex m' < monthIndex m
                  \<longrightarrow> monthCount m' (readIn2025 books) < monthCount m (readIn2025 books))"
    by (simp only: peakMonth_def)
qed

theorem peakMonth_most_active_witness:
  "readIn2025
     [\<lparr>title = Some ''A'', author = Some ''X'', pages = 100, rating = 0,
        dateRead = Some (LocalDate 2025 Dec), dateAdded = None, shelf = Some ''read''\<rparr>,
      \<lparr>title = Some ''B'', author = Some ''Y'', pages = 100, rating = 0,
        dateRead = Some (LocalDate 2025 Feb), dateAdded = None, shelf = Some ''read''\<rparr>,
      \<lparr>title = Some ''C'', author = Some ''Z'', pages = 100, rating = 0,
        dateRead = Some (LocalDate 2025 Dec), dateAdded = None, shelf = Some ''read''\<rparr>,
      \<lparr>title = Some ''D'', author = Some ''W'', pages = 100, rating = 0,
        dateRead = None, dateAdded = Some (LocalDate 2025 Feb), shelf = Some ''read''\<rparr>] \<noteq> []
   \<and> peakMonth (readIn2025
     [\<lparr>title = Some ''A'', author = Some ''X'', pages = 100, rating = 0,
        dateRead = Some (LocalDate 2025 Dec), dateAdded = None, shelf = Some ''read''\<rparr>,
      \<lparr>title = Some ''B'', author = Some ''Y'', pages = 100, rating = 0,
        dateRead = Some (LocalDate 2025 Feb), dateAdded = None, shelf = Some ''read''\<rparr>,
      \<lparr>title = Some ''C'', author = Some ''Z'', pages = 100, rating = 0,
        dateRead = Some (LocalDate 2025 Dec), dateAdded = None, shelf = Some ''read''\<rparr>,
      \<lparr>title = Some ''D'', author = Some ''W'', pages = 100, rating = 0,
        dateRead = None, dateAdded = Some (LocalDate 2025 Feb), shelf = Some ''read''\<rparr>])
     = ''FEBRUARI (2 BUKU)''
   \<and> readIn2025 [] = []
   \<and> peakMonth (readIn2025 []) = ''-''"
proof -
  let ?books = "[\<lparr>title = Some ''A'', author = Some ''X'', pages = 100, rating = 0,
        dateRead = Some (LocalDate 2025 Dec), dateAdded = None, shelf = Some ''read''\<rparr>,
      \<lparr>title = Some ''B'', author = Some ''Y'', pages = 100, rating = 0,
        dateRead = Some (LocalDate 2025 Feb), dateAdded = None, shelf = Some ''read''\<rparr>,
      \<lparr>title = Some ''C'', author = Some ''Z'', pages = 100, rating = 0,
        dateRead = Some (LocalDate 2025 Dec), dateAdded = None, shelf = Some ''read''\<rparr>,
      \<lparr>title = Some ''D'', author = Some ''W'', pages = 100, rating = 0,
        dateRead = None, dateAdded = Some (LocalDate 2025 Feb), shelf = Some ''read''\<rparr>]"
  have rd: "readIn2025 ?books =
     [\<lparr>title = Some ''A'', author = Some ''X'', pages = 100, rating = 0,
        dateRead = Some (LocalDate 2025 Dec), dateAdded = None, shelf = Some ''read''\<rparr>,
      \<lparr>title = Some ''B'', author = Some ''Y'', pages = 100, rating = 0,
        dateRead = Some (LocalDate 2025 Feb), dateAdded = None, shelf = Some ''read''\<rparr>,
      \<lparr>title = Some ''C'', author = Some ''Z'', pages = 100, rating = 0,
        dateRead = Some (LocalDate 2025 Dec), dateAdded = None, shelf = Some ''read''\<rparr>,
      \<lparr>title = Some ''D'', author = Some ''W'', pages = 100, rating = 0,
        dateRead = Some (LocalDate 2025 Feb), dateAdded = Some (LocalDate 2025 Feb),
        shelf = Some ''read''\<rparr>]"
    by (simp add: readIn2025_def keepRead_def inYear2025_def backfill_def)
  then have ne: "readIn2025 ?books \<noteq> []" by simp
  have e: "readIn2025 [] = []" by (simp add: readIn2025_def)
  from ne peakMonth_most_active [of "[]" ?books]
  obtain m where pm: "peakMonth (readIn2025 ?books)
      = monthNames ! monthIndex m @ '' ('' @ showNat (monthCount m (readIn2025 ?books)) @ '' BUKU)''"
    and mx: "\<forall>m'. monthCount m' (readIn2025 ?books) \<le> monthCount m (readIn2025 ?books)"
    and tie: "\<forall>m'. monthIndex m' < monthIndex m
        \<longrightarrow> monthCount m' (readIn2025 ?books) < monthCount m (readIn2025 ?books)"
    by blast
  have feb: "monthCount Feb (readIn2025 ?books) = 2"
    by (simp add: rd monthCount_def readInMonth_def)
  have other: "monthCount m' (readIn2025 ?books) \<le> 2" for m'
    by (simp add: rd monthCount_def readInMonth_def)
  from mx feb other [of m] have two: "monthCount m (readIn2025 ?books) = 2"
    by (metis le_antisym)
  from tie feb two have "\<not> monthIndex Feb < monthIndex m" by fastforce
  then have "m = Jan \<or> m = Feb" by (cases m) simp_all
  moreover have "monthCount Jan (readIn2025 ?books) = 0"
    by (simp add: rd monthCount_def readInMonth_def)
  ultimately have "m = Feb" using two by auto
  with pm two have p: "peakMonth (readIn2025 ?books) = ''FEBRUARI (2 BUKU)''"
    by (simp add: monthNames_def showNat.simps digitChar_def)
  from e peakMonth_most_active [of "[]" "[]"]
  have q: "peakMonth (readIn2025 []) = ''-''" by blast
  from ne p e q show ?thesis by blast
qed

subsection \<open>Year filter: the fallback on the add date\<close>

lemma readIn2025_append: "readIn2025 (xs @ ys) = readIn2025 xs @ readIn2025 ys"
  by (simp add: readIn2025_def)

lemma readIn2025_Cons:
  "readIn2025 (b # ys) = (if keepRead b then backfill b # readIn2025 ys else readIn2025 ys)"
  by (simp add: readIn2025_def)

lemma monthCount_append: "monthCount m (xs @ ys) = monthCount m xs + monthCount m ys"
  by (simp add: monthCount_def)

lemma tally_month: "orZero (getProp (monthCounts rd) (monthKey m)) = monthCount m rd"
  unfolding monthCounts_tally count_tally
  by (simp add: count_monthKeys getProp_def orZero_def)

text \<open>
  C1: a record on the shelf \<^verbatim>\<open>read\<close> with no read date and an add date in 2025 is kept
  by \<^verbatim>\<open>readIn2025\<close>, at its place, with the add date as its read date; the tally of months
  that \<^verbatim>\<open>getMostActiveMonth\<close> builds then counts it under the month of the add date. A
  record on the shelf \<^verbatim>\<open>read\<close> with neither date is dropped.
\<close>

theorem readIn2025_fallback:
  "(shelf b = Some ''read'' \<and> dateRead b = None \<and> dateAdded b = Some d
      \<and> getFullYear d = Some 2025 \<longrightarrow>
      readIn2025 (xs @ b # ys) = readIn2025 xs @ b\<lparr>dateRead := Some d\<rparr> # readIn2025 ys
      \<and> b\<lparr>dateRead := Some d\<rparr> \<in> set (readIn2025 (xs @ b # ys))
      \<and> (\<exists>m. getMonth d = Some (monthIndex m)
            \<and> monthCount m (readIn2025 (xs @ b # ys)) = monthCount m (readIn2025 (xs @ ys)) + 1
            \<and> orZero (getProp (monthCounts (readIn2025 (xs @ b # ys))) (monthKey m))
                = orZero (getProp (monthCounts (readIn2025 (xs @ ys))) (monthKey m)) + 1))
   \<and> (shelf b = Some ''read'' \<and> dateRead b = None \<and> dateAdded b = None \<longrightarrow>
        readIn2025 (xs @ b # ys) = readIn2025 (xs @ ys) \<and> readIn2025 [b] = [])"
proof (intro conjI impI)
  assume h: "shelf b = Some ''read'' \<and> dateRead b = None \<and> dateAdded b = Some d
      \<and> getFullYear d = Some 2025"
  then have keep: "keepRead b" and fill: "backfill b = b\<lparr>dateRead := Some d\<rparr>"
    by (simp_all add: keepRead_def inYear2025_def backfill_def)
  then show eq: "readIn2025 (xs @ b # ys)
      = readIn2025 xs @ b\<lparr>dateRead := Some d\<rparr> # readIn2025 ys"
    by (simp add: readIn2025_append readIn2025_Cons)
  then show "b\<lparr>dateRead := Some d\<rparr> \<in> set (readIn2025 (xs @ b # ys))" by simp
  from h obtain m where d: "d = LocalDate 2025 m" using getFullYear_Some by blast
  then have in_m: "readInMonth m (b\<lparr>dateRead := Some d\<rparr>)" by (simp add: readInMonth_def)
  have cnt: "monthCount m (readIn2025 (xs @ b # ys)) = monthCount m (readIn2025 (xs @ ys)) + 1"
  proof -
    from keep fill have "readIn2025 (b # ys) = b\<lparr>dateRead := Some d\<rparr> # readIn2025 ys"
      by (simp add: readIn2025_Cons)
    with in_m show ?thesis by (simp add: readIn2025_append monthCount_def)
  qed
  from d cnt
  show "\<exists>m. getMonth d = Some (monthIndex m)
            \<and> monthCount m (readIn2025 (xs @ b # ys)) = monthCount m (readIn2025 (xs @ ys)) + 1
            \<and> orZero (getProp (monthCounts (readIn2025 (xs @ b # ys))) (monthKey m))
                = orZero (getProp (monthCounts (readIn2025 (xs @ ys))) (monthKey m)) + 1"
    by (auto simp add: tally_month)
next
  assume h: "shelf b = Some ''read'' \<and> dateRead b = None \<and> dateAdded b = None"
  then have drop: "\<not> keepRead b" by (simp add: keepRead_def inYear2025_def)
  then show "readIn2025 (xs @ b # ys) = readIn2025 (xs @ ys)"
    by (simp add: readIn2025_append readIn2025_Cons)
  from drop show "readIn2025 [b] = []" by (simp add: readIn2025_def)
qed

theorem readIn2025_fallback_witness:
  "readIn2025
     [\<lparr>title = Some ''A'', author = Some ''X'', pages = 100, rating = 0, dateRead = None,
        dateAdded = Some (LocalDate 2025 Mar), shelf = Some ''read''\<rparr>]
     = [\<lparr>title = Some ''A'', author = Some ''X'', pages = 100, rating = 0,
         dateRead = Some (LocalDate 2025 Mar), dateAdded = Some (LocalDate 2025 Mar),
         shelf = Some ''read''\<rparr>]
   \<and> peakMonth (readIn2025
       [\<lparr>title = Some ''A'', author = Some ''X'', pages = 100, rating = 0, dateRead = None,
          dateAdded = Some (LocalDate 2025 Mar), shelf = Some ''read''\<rparr>]) = ''MARET (1 BUKU)''
   \<and> readIn2025
       [\<lparr>title = Some ''B'', author = Some ''Y'', pages = 100, rating = 0, dateRead = None,
          dateAdded = None, shelf = Some ''read''\<rparr>] = []"
proof -
  let ?b = "\<lparr>title = Some ''A'', author = Some ''X'', pages = 100, rating = 0,
      dateRead = None, dateAdded = Some (LocalDate 2025 Mar), shelf = Some ''read''\<rparr>"
  let ?c = "\<lparr>title = Some ''B'', author = Some ''Y'', pages = 100, rating = 0,
      dateRead = None, dateAdded = None, shelf = Some ''read''\<rparr>"
  have hb: "shelf ?b = Some ''read'' \<and> dateRead ?b = None
      \<and> dateAdded ?b = Some (LocalDate 2025 Mar) \<and> getFullYear (LocalDate 2025 Mar) = Some 2025"
    by simp
  have hc: "shelf ?c = Some ''read'' \<and> dateRead ?c = None \<and> dateAdded ?c = None" by simp
  from hb readIn2025_fallback [of ?b "LocalDate 2025 Mar" "[]" "[]"]
  have "readIn2025 ([] @ ?b # [])
      = readIn2025 [] @ ?b\<lparr>dateRead := Some (LocalDate 2025 Mar)\<rparr> # readIn2025 []"
    by blast
  then have 1: "readIn2025 [?b] = [?b\<lparr>dateRead := Some (LocalDate 2025 Mar)\<rparr>]"
    by (simp add: readIn2025_def)
  have 2: "peakMonth [?b\<lparr>dateRead := Some (LocalDate 2025 Mar)\<rparr>] = ''MARET (1 BUKU)''"
    by (simp add: peakMonth_def getMostActiveMonth_def monthCounts_def bump_def getProp_def
        orZero_def numberKey_def showNat.simps digitChar_def Object_entries_def
        isArrayIndex_def digitValue_def mathInt_def scanMax_def parseInt_def isWhiteSpace_def
        monthNameAt_def monthNames_def showInt_def)
  from hc readIn2025_fallback [of ?c "LocalDate 2025 Mar" "[]" "[]"]
  have 3: "readIn2025 [?c] = []" by blast
  from 1 2 3 show ?thesis by simp
qed

end
